theory Spec2Isabelle
  imports Complex_Main
begin

text \<open>
  The grid preparation of \<^verbatim>\<open>sofi2dpy/model_utils.py\<close>: the resampler
  \<^verbatim>\<open>resample_model\<close>, the padder \<^verbatim>\<open>pad_model_to_multiple\<close> (defined twice in the
  module) and the search \<^verbatim>\<open>suggest_domain_decomposition_sofi\<close> for a process grid. The
  functions are embedded as functions of HOL that return either the exception raised or the
  value returned; the calls into NumPy and SciPy are modelled as far as the functions use
  them.
\<close>

section \<open>Python errors and integer arithmetic\<close>

text \<open>
  The exceptions that the modelled functions of \<^verbatim>\<open>sofi2dpy/model_utils.py\<close> can raise.
  A call either raises (\<open>Inl\<close>) or returns (\<open>Inr\<close>).
\<close>

datatype py_error = TypeError | ValueError | IndexError | ZeroDivisionError | OverflowError

definition bind_result :: "py_error + 'a \<Rightarrow> ('a \<Rightarrow> py_error + 'b) \<Rightarrow> py_error + 'b" where
  "bind_result r f = (case r of Inl e \<Rightarrow> Inl e | Inr v \<Rightarrow> f v)"

text \<open>
  Python's \<^verbatim>\<open>a % b\<close> and \<^verbatim>\<open>a // b\<close> on unbounded integers: floor division, the
  remainder has the sign of the divisor (as \<open>mod\<close> and \<open>div\<close> on \<open>int\<close>), and a zero
  divisor raises.
\<close>

definition py_mod :: "int \<Rightarrow> int \<Rightarrow> py_error + int" where
  "py_mod a b = (if b = 0 then Inl ZeroDivisionError else Inr (a mod b))"

definition py_floordiv :: "int \<Rightarrow> int \<Rightarrow> py_error + int" where
  "py_floordiv a b = (if b = 0 then Inl ZeroDivisionError else Inr (a div b))"

text \<open>
  A \<^verbatim>\<open>for x in xs: body\<close> loop over a state: the body runs for each element in order,
  and an exception in the body leaves the loop.
\<close>

fun for_each :: "('x \<Rightarrow> 's \<Rightarrow> py_error + 's) \<Rightarrow> 'x list \<Rightarrow> 's \<Rightarrow> py_error + 's" where
  "for_each body [] s = Inr s"
| "for_each body (x # xs) s =
     (case body x s of Inl e \<Rightarrow> Inl e | Inr s' \<Rightarrow> for_each body xs s')"

section \<open>Domain decomposition\<close>

text \<open>
  \<^verbatim>\<open>suggest_domain_decomposition_sofi(nx, nz, max_cores, fw, fdorder)\<close>,
  lines 165 to 216. The loop state is the pair of local variables \<^verbatim>\<open>best\<close> and
  \<^verbatim>\<open>best_procs\<close>.
\<close>

record search_state =
  best :: "int \<times> int"
  best_procs :: int

text \<open>The body of the inner loop (lines 195 to 213), for one \<^verbatim>\<open>fx\<close>.\<close>

definition factor_body ::
  "int \<Rightarrow> int \<Rightarrow> int \<Rightarrow> int \<Rightarrow> int \<Rightarrow> search_state \<Rightarrow> py_error + search_state" where
  "factor_body nx nz min_block nproc fx st =
     bind_result (py_mod nproc fx) (\<lambda>r.
       if r \<noteq> 0 then Inr st
       else bind_result (py_floordiv nproc fx) (\<lambda>fy.
         bind_result (py_mod nx fx) (\<lambda>rx.
           if rx \<noteq> 0 then Inr st
           else bind_result (py_mod nz fy) (\<lambda>rz.
             if rz \<noteq> 0 then Inr st
             else bind_result (py_floordiv nx fx) (\<lambda>local_nx.
               bind_result (py_floordiv nz fy) (\<lambda>local_nz.
                 if local_nx < min_block then Inr st
                 else if local_nz < min_block then Inr st
                 else if fx * fy > best_procs st
                   then Inr (st\<lparr>best := (fx, fy), best_procs := fx * fy\<rparr>)
                   else Inr st))))))"

text \<open>The inner loop \<^verbatim>\<open>for fx in range(1, nproc + 1)\<close>.\<close>

definition factor_loop ::
  "int \<Rightarrow> int \<Rightarrow> int \<Rightarrow> int \<Rightarrow> search_state \<Rightarrow> py_error + search_state" where
  "factor_loop nx nz min_block nproc st =
     for_each (factor_body nx nz min_block nproc) [1..nproc] st"

text \<open>The outer loop \<^verbatim>\<open>for nproc in range(1, max_cores + 1)\<close>.\<close>

definition nproc_loop ::
  "int \<Rightarrow> int \<Rightarrow> int \<Rightarrow> int \<Rightarrow> search_state \<Rightarrow> py_error + search_state" where
  "nproc_loop nx nz min_block max_cores st =
     for_each (factor_loop nx nz min_block) [1..max_cores] st"

text \<open>
  The function returns the tuple
  \<^verbatim>\<open>(best[0], best[1], threads_per_proc, best_procs)\<close>.
\<close>

definition suggest_domain_decomposition_sofi ::
  "int \<Rightarrow> int \<Rightarrow> int \<Rightarrow> int \<Rightarrow> int \<Rightarrow> py_error + (int \<times> int \<times> int \<times> int)" where
  "suggest_domain_decomposition_sofi nx nz max_cores fw fdorder =
     (let min_block = 2 * fw + 2 * fdorder in
      bind_result (nproc_loop nx nz min_block max_cores \<lparr>best = (1, 1), best_procs = 1\<rparr>)
        (\<lambda>st. bind_result (py_floordiv max_cores (best_procs st))
          (\<lambda>q. Inr (fst (best st), snd (best st), max 1 q, best_procs st))))"

section \<open>Arrays\<close>

text \<open>
  A two-dimensional NumPy array: its element type tag, its shape \<open>(nx, nz)\<close> and its
  samples as a list of \<open>nx\<close> rows of \<open>nz\<close> samples each, so that \<^verbatim>\<open>a[i, j]\<close> is
  sample \<open>j\<close> of row \<open>i\<close>. The shape is kept beside the rows because an array may have
  an axis of length 0. The samples themselves are never inspected by the padder, so their
  type is a parameter.
\<close>

datatype dtype = Float32 | Float64

record 'a ndarray =
  dtype :: dtype
  shape :: "nat \<times> nat"
  rows :: "'a list list"

definition well_shaped :: "'a ndarray \<Rightarrow> bool" where
  "well_shaped a \<longleftrightarrow>
     length (rows a) = fst (shape a) \<and> (\<forall>r \<in> set (rows a). length r = snd (shape a))"

definition item :: "'a ndarray \<Rightarrow> nat \<Rightarrow> nat \<Rightarrow> 'a" where
  "item a i j = rows a ! i ! j"

text \<open>
  What a call can return: an array, an integer, or a tuple of such values.
\<close>

datatype 'a py_value = PyArray "'a ndarray" | PyInt int | PyTuple "'a py_value list"

section \<open>Padding\<close>

text \<open>
  \<^verbatim>\<open>np.pad(a, ((x0, x1), (z0, z1)), mode=mode)\<close> for the modes \<^verbatim>\<open>"edge"\<close> (the
  default of the padder) and \<^verbatim>\<open>"constant"\<close>; the other modes of NumPy are not modelled.
  A lane is extended by \<open>before\<close> samples in front and \<open>after\<close> samples behind: copies of
  its first and last sample (edge), or zeros (constant).
\<close>

datatype pad_mode = Edge | Constant

definition edge_pad :: "nat \<Rightarrow> nat \<Rightarrow> 'a list \<Rightarrow> 'a list" where
  "edge_pad before after xs =
     (if xs = [] then [] else replicate before (hd xs) @ xs @ replicate after (last xs))"

definition constant_pad :: "nat \<Rightarrow> nat \<Rightarrow> 'a \<Rightarrow> 'a list \<Rightarrow> 'a list" where
  "constant_pad before after c xs = replicate before c @ xs @ replicate after c"

text \<open>
  NumPy pads axis 0 first and axis 1 on the result. A negative width raises
  \<^verbatim>\<open>ValueError\<close>, and so does a non-zero width on an axis of length 0 in edge mode. The
  element type of the result is that of the argument.
\<close>

definition np_pad ::
  "'a::zero ndarray \<Rightarrow> (int \<times> int) \<times> (int \<times> int) \<Rightarrow> pad_mode \<Rightarrow> py_error + 'a ndarray" where
  "np_pad a pad_width mode =
     (case pad_width of ((x0, x1), (z0, z1)) \<Rightarrow>
        if x0 < 0 \<or> x1 < 0 \<or> z0 < 0 \<or> z1 < 0 then Inl ValueError
        else (case shape a of (nx, nz) \<Rightarrow>
          let padded_shape = (nat x0 + nx + nat x1, nat z0 + nz + nat z1) in
          (case mode of
             Constant \<Rightarrow>
               Inr (a\<lparr>shape := padded_shape,
                      rows := map (constant_pad (nat z0) (nat z1) 0)
                                (constant_pad (nat x0) (nat x1) (replicate nz 0) (rows a))\<rparr>)
           | Edge \<Rightarrow>
               if nx = 0 \<and> (0 < x0 \<or> 0 < x1) then Inl ValueError
               else if nz = 0 \<and> (0 < z0 \<or> 0 < z1) then Inl ValueError
               else Inr (a\<lparr>shape := padded_shape,
                           rows := map (edge_pad (nat z0) (nat z1))
                                     (edge_pad (nat x0) (nat x1) (rows a))\<rparr>))))"

text \<open>
  \<^verbatim>\<open>int(np.ceil(n / multiple) * multiple)\<close>. The division of two Python integers
  raises on a zero divisor. The quotient, its ceiling and the product are computed in
  double precision; they are exact as long as the padded size stays below \<open>2^53\<close>, and
  are modelled by exact arithmetic.
\<close>

definition ceil_to_multiple :: "int \<Rightarrow> int \<Rightarrow> py_error + int" where
  "ceil_to_multiple n multiple =
     (if multiple = 0 then Inl ZeroDivisionError
      else Inr (\<lceil>real_of_int n / real_of_int multiple\<rceil> * multiple))"

text \<open>
  The module defines \<^verbatim>\<open>pad_model_to_multiple\<close> twice. This is the second definition
  (lines 219 to 257), the one the name is bound to once the module is loaded. It returns
  the pair \<^verbatim>\<open>(padded, (pad_left, pad_right, pad_top, pad_bot))\<close>.
\<close>

definition pad_model_to_multiple ::
  "'a::zero ndarray \<Rightarrow> int \<Rightarrow> pad_mode \<Rightarrow> py_error + ('a ndarray \<times> (int \<times> int \<times> int \<times> int))" where
  "pad_model_to_multiple model multiple mode =
     (case shape model of (nx, nz) \<Rightarrow>
        bind_result (ceil_to_multiple (int nx) multiple) (\<lambda>nx_pad.
          bind_result (ceil_to_multiple (int nz) multiple) (\<lambda>nz_pad.
            let pad_x = nx_pad - int nx;
                pad_z = nz_pad - int nz;
                pad_left = pad_x div 2;
                pad_right = pad_x - pad_left;
                pad_top = pad_z div 2;
                pad_bot = pad_z - pad_top
            in bind_result (np_pad model ((pad_left, pad_right), (pad_top, pad_bot)) mode)
                 (\<lambda>padded. Inr (padded, (pad_left, pad_right, pad_top, pad_bot))))))"

text \<open>
  The first definition (lines 115 to 158), which the second one shadows: it takes the
  models as a variadic argument and \<^verbatim>\<open>multiple\<close> by keyword, pads every model by the
  widths computed from the first one, and returns one array or a tuple of arrays.
\<close>

fun pad_each ::
  "'a::zero ndarray list \<Rightarrow> (int \<times> int) \<times> (int \<times> int) \<Rightarrow> pad_mode \<Rightarrow> py_error + 'a ndarray list" where
  "pad_each [] pad_width mode = Inr []"
| "pad_each (m # ms) pad_width mode =
     bind_result (np_pad m pad_width mode) (\<lambda>p.
       bind_result (pad_each ms pad_width mode) (\<lambda>ps. Inr (p # ps)))"

definition pad_model_to_multiple_variadic ::
  "'a::zero ndarray list \<Rightarrow> int \<Rightarrow> pad_mode \<Rightarrow> py_error + 'a py_value" where
  "pad_model_to_multiple_variadic models multiple mode =
     (case models of
        [] \<Rightarrow> Inl IndexError
      | m0 # _ \<Rightarrow>
          (case shape m0 of (nx, nz) \<Rightarrow>
             bind_result (ceil_to_multiple (int nx) multiple) (\<lambda>nx_pad.
               bind_result (ceil_to_multiple (int nz) multiple) (\<lambda>nz_pad.
                 let pad_x = nx_pad - int nx;
                     pad_z = nz_pad - int nz;
                     pad_left = pad_x div 2;
                     pad_right = pad_x - pad_left;
                     pad_top = pad_z div 2;
                     pad_bot = pad_z - pad_top
                 in bind_result (pad_each models ((pad_left, pad_right), (pad_top, pad_bot)) mode)
                      (\<lambda>padded.
                         if length padded = 1 then Inr (PyArray (hd padded))
                         else Inr (PyTuple (map PyArray padded)))))))"

text \<open>
  The call \<^verbatim>\<open>pad_model_to_multiple(*models, multiple=multiple, mode=mode)\<close> from
  outside the module, with the models passed by position and the other arguments by
  keyword, as the variadic signature requires. The name denotes the second definition,
  whose parameters are \<^verbatim>\<open>(model, multiple, mode="edge")\<close>: without a positional
  argument \<^verbatim>\<open>model\<close> is missing, and a second positional argument is bound to
  \<^verbatim>\<open>multiple\<close>, which the keyword then gives again; both raise \<^verbatim>\<open>TypeError\<close>.
\<close>

definition call_pad_model_to_multiple ::
  "'a::zero ndarray list \<Rightarrow> int \<Rightarrow> pad_mode \<Rightarrow> py_error + 'a py_value" where
  "call_pad_model_to_multiple models multiple mode =
     (case models of
        [] \<Rightarrow> Inl TypeError
      | [model] \<Rightarrow>
          bind_result (pad_model_to_multiple model multiple mode) (\<lambda>(padded, l, r, t, b).
            Inr (PyTuple [PyArray padded, PyTuple [PyInt l, PyInt r, PyInt t, PyInt b]]))
      | _ \<Rightarrow> Inl TypeError)"

section \<open>Resampling\<close>

text \<open>
  \<^verbatim>\<open>resample_model(model, dx, dz, dh)\<close>, lines 63 to 112. The spacings and the
  coordinates are Python floats, modelled by the real numbers they denote: comparisons are
  exact, the rounding error of the products and quotients is not modelled, and neither are
  infinities and NaN. The samples are opaque.
\<close>

text \<open>
  Python's \<^verbatim>\<open>round(x)\<close> of a float: the nearest integer, and the even one of the two
  when \<open>x\<close> lies halfway.
\<close>

definition py_round :: "real \<Rightarrow> int" where
  "py_round x =
     (let f = \<lfloor>x\<rfloor>; r = x - of_int f in
      if r < 1 / 2 then f else if 1 / 2 < r then f + 1 else if even f then f else f + 1)"

text \<open>\<^verbatim>\<open>xs[-1]\<close> raises on an empty array.\<close>

definition last_item :: "'a list \<Rightarrow> py_error + 'a" where
  "last_item xs = (if xs = [] then Inl IndexError else Inr (last xs))"

text \<open>
  \<^verbatim>\<open>int(round(x_last / dh)) + 1\<close>. The quotient is a NumPy division: by zero it is an
  infinity, or NaN for \<open>0 / 0\<close>, and \<^verbatim>\<open>round\<close> raises \<^verbatim>\<open>OverflowError\<close> on the one
  and \<^verbatim>\<open>ValueError\<close> on the other.
\<close>

definition new_count :: "real \<Rightarrow> real \<Rightarrow> py_error + int" where
  "new_count x_last dh =
     (if dh = 0 then (if x_last = 0 then Inl ValueError else Inl OverflowError)
      else Inr (py_round (x_last / dh) + 1))"

text \<open>\<^verbatim>\<open>np.arange(n) * d\<close>, for an integer \<open>n\<close>: empty when \<open>n \<le> 0\<close>.\<close>

definition axis_coordinates :: "int \<Rightarrow> real \<Rightarrow> real list" where
  "axis_coordinates n d = map (\<lambda>i. real i * d) [0..<nat n]"

text \<open>
  SciPy's \<^verbatim>\<open>RegularGridInterpolator\<close>, as far as the resampler uses it. The
  constructor wants each axis strictly ascending and as long as the matching dimension of
  the values, and raises \<^verbatim>\<open>ValueError\<close> otherwise (recent versions of SciPy also take a
  strictly descending axis, which is not modelled).
\<close>

record 'a grid_interpolator =
  grid :: "real list \<times> real list"
  grid_values :: "'a ndarray"
  bounds_error :: bool
  fill_value :: "'a option"

definition regular_grid_interpolator ::
  "real list \<times> real list \<Rightarrow> 'a ndarray \<Rightarrow> bool \<Rightarrow> 'a option \<Rightarrow> py_error + 'a grid_interpolator" where
  "regular_grid_interpolator points vals be fv =
     (if \<not> sorted_wrt (<) (fst points) then Inl ValueError
      else if \<not> sorted_wrt (<) (snd points) then Inl ValueError
      else if length (fst points) \<noteq> fst (shape vals) then Inl ValueError
      else if length (snd points) \<noteq> snd (shape vals) then Inl ValueError
      else Inr \<lparr>grid = points, grid_values = vals, bounds_error = be, fill_value = fv\<rparr>)"

text \<open>A coordinate is inside an axis when it lies between two of its points.\<close>

definition inside_axis :: "real list \<Rightarrow> real \<Rightarrow> bool" where
  "inside_axis axis x \<longleftrightarrow> (\<exists>a \<in> set axis. a \<le> x) \<and> (\<exists>b \<in> set axis. x \<le> b)"

definition out_of_bounds :: "'a grid_interpolator \<Rightarrow> real \<times> real \<Rightarrow> bool" where
  "out_of_bounds interp p \<longleftrightarrow>
     \<not> inside_axis (fst (grid interp)) (fst p) \<or> \<not> inside_axis (snd (grid interp)) (snd p)"

text \<open>
  NumPy's element type of an arithmetic result, for the two floating types: single
  precision only when both operands are.
\<close>

definition result_type :: "dtype \<Rightarrow> dtype \<Rightarrow> dtype" where
  "result_type a b = (if a = Float32 \<and> b = Float32 then Float32 else Float64)"

text \<open>
  The call \<^verbatim>\<open>interp(pts)\<close> returns one value for each point. A point outside the grid
  raises \<^verbatim>\<open>ValueError\<close> when \<^verbatim>\<open>bounds_error\<close> is set; otherwise it gets
  \<^verbatim>\<open>fill_value\<close>, or, when that is \<^verbatim>\<open>None\<close>, the extrapolated value. The value of the
  linear interpolant at a point, inside the grid or extrapolated, is computed by SciPy in
  floating point: it is the parameter \<open>eval_linear\<close> of the model. The coordinates and
  the weights computed from them are of type \<^verbatim>\<open>float64\<close>, and the values are sums of
  products of samples and weights: that gives the element type of the result.
\<close>

type_synonym 'a point_evaluation = "real list \<times> real list \<Rightarrow> 'a ndarray \<Rightarrow> real \<times> real \<Rightarrow> 'a"

definition interpolate ::
  "'a point_evaluation \<Rightarrow> 'a grid_interpolator \<Rightarrow> (real \<times> real) list \<Rightarrow>
     py_error + (dtype \<times> 'a list)" where
  "interpolate eval_linear interp pts =
     (if bounds_error interp \<and> (\<exists>p \<in> set pts. out_of_bounds interp p) then Inl ValueError
      else Inr (result_type (dtype (grid_values interp)) Float64,
        map (\<lambda>p.
          case fill_value interp of
            Some v \<Rightarrow>
              if out_of_bounds interp p then v
              else eval_linear (grid interp) (grid_values interp) p
          | None \<Rightarrow> eval_linear (grid interp) (grid_values interp) p) pts))"

text \<open>
  \<^verbatim>\<open>values.reshape(a, b)\<close> of a one-dimensional array, in row-major order. One of the
  two dimensions may be \<open>-1\<close> and is then inferred; any other negative dimension, and a
  shape that does not hold exactly the given values, raises \<^verbatim>\<open>ValueError\<close>.
\<close>

definition row_major :: "dtype \<Rightarrow> nat \<Rightarrow> nat \<Rightarrow> 'a list \<Rightarrow> 'a ndarray" where
  "row_major dt a b vals =
     \<lparr>dtype = dt, shape = (a, b), rows = map (\<lambda>i. take b (drop (i * b) vals)) [0..<a]\<rparr>"

definition reshape :: "dtype \<Rightarrow> 'a list \<Rightarrow> int \<Rightarrow> int \<Rightarrow> py_error + 'a ndarray" where
  "reshape dt vals a b =
     (let n = int (length vals) in
      if a < - 1 \<or> b < - 1 then Inl ValueError
      else if a = - 1 \<and> b = - 1 then Inl ValueError
      else if a = - 1 then
        (if b = 0 then Inl ValueError
         else if n mod b = 0 then Inr (row_major dt (nat (n div b)) (nat b) vals)
         else Inl ValueError)
      else if b = - 1 then
        (if a = 0 then Inl ValueError
         else if n mod a = 0 then Inr (row_major dt (nat a) (nat (n div a)) vals)
         else Inl ValueError)
      else if a * b = n then Inr (row_major dt (nat a) (nat b) vals)
      else Inl ValueError)"

text \<open>
  The points of the new grid, \<^verbatim>\<open>np.meshgrid(..., indexing="ij")\<close> ravelled and
  stacked: the pairs \<open>(x, z)\<close> with the first axis outermost.
\<close>

definition grid_points :: "real list \<Rightarrow> real list \<Rightarrow> (real \<times> real) list" where
  "grid_points xs zs = concat (map (\<lambda>x. map (\<lambda>z. (x, z)) zs) xs)"

text \<open>
  The resampler. The fast path returns its argument. The other path returns what the
  interpolator computed, reshaped; the function has no cast, so the element type of its
  result is that of the interpolator's.
\<close>

definition resample_model ::
  "'a point_evaluation \<Rightarrow> 'a ndarray \<Rightarrow> real \<Rightarrow> real \<Rightarrow> real \<Rightarrow> py_error + 'a ndarray" where
  "resample_model eval_linear model dx dz dh =
     (if dx = dh \<and> dz = dh then Inr model
      else (case shape model of (nx_old, nz_old) \<Rightarrow>
        let x_old = axis_coordinates (int nx_old) dx;
            z_old = axis_coordinates (int nz_old) dz
        in bind_result (last_item x_old) (\<lambda>x_last.
             bind_result (new_count x_last dh) (\<lambda>nx_new.
               bind_result (last_item z_old) (\<lambda>z_last.
                 bind_result (new_count z_last dh) (\<lambda>nz_new.
                   bind_result (regular_grid_interpolator (x_old, z_old) model False None)
                     (\<lambda>interp.
                        let pts = grid_points (axis_coordinates nx_new dh)
                                    (axis_coordinates nz_new dh)
                        in bind_result (interpolate eval_linear interp pts)
                             (\<lambda>(dt, vals). reshape dt vals nx_new nz_new))))))))"

section \<open>Specification predicates and example inputs\<close>

text \<open>
  A factor pair is feasible when it divides both grid dimensions and leaves local blocks of
  at least \<open>min_block\<close> points: the two tests of lines 200 and 207, negated.
\<close>

definition feasible :: "int \<Rightarrow> int \<Rightarrow> int \<Rightarrow> int \<Rightarrow> int \<Rightarrow> bool" where
  "feasible nx nz min_block fx fy \<longleftrightarrow>
     nx mod fx = 0 \<and> nz mod fy = 0 \<and> min_block \<le> nx div fx \<and> min_block \<le> nz div fy"

text \<open>
  The invariant of both loops: \<^verbatim>\<open>best\<close> is the initial \<open>(1, 1)\<close> or a feasible pair
  whose product is \<^verbatim>\<open>best_procs\<close>.
\<close>

definition layout_inv :: "int \<Rightarrow> int \<Rightarrow> int \<Rightarrow> int \<Rightarrow> search_state \<Rightarrow> bool" where
  "layout_inv nx nz mb mc st \<longleftrightarrow>
     (best st = (1, 1) \<and> best_procs st = 1) \<or>
     (1 \<le> fst (best st) \<and> 1 \<le> snd (best st) \<and> 1 < best_procs st \<and>
      fst (best st) * snd (best st) = best_procs st \<and> best_procs st \<le> mc \<and>
      feasible nx nz mb (fst (best st)) (snd (best st)))"

text \<open>
  \<open>p\<close> is the smallest multiple of \<open>multiple\<close> that is at least \<open>n\<close>.
\<close>

definition smallest_multiple_at_least :: "int \<Rightarrow> int \<Rightarrow> int \<Rightarrow> bool" where
  "smallest_multiple_at_least multiple n p \<longleftrightarrow>
     multiple dvd p \<and> n \<le> p \<and> (\<forall>k. multiple dvd k \<and> n \<le> k \<longrightarrow> p \<le> k)"

text \<open>
  The widths by which both definitions of the padder pad a model of shape \<open>sh\<close>, with the
  ceiling written as an integer division.
\<close>

definition pad_widths :: "int \<Rightarrow> nat \<times> nat \<Rightarrow> (int \<times> int) \<times> (int \<times> int)" where
  "pad_widths multiple sh =
     (let pad_x = - (- int (fst sh) div multiple) * multiple - int (fst sh);
          pad_z = - (- int (snd sh) div multiple) * multiple - int (snd sh)
      in ((pad_x div 2, pad_x - pad_x div 2), (pad_z div 2, pad_z - pad_z div 2)))"

text \<open>Two example models: one with distinct samples, one of shape \<open>(17, 33)\<close>.\<close>

definition model_2x3 :: "int ndarray" where
  "model_2x3 = \<lparr>dtype = Float32, shape = (2, 3), rows = [[1, 2, 3], [4, 5, 6]]\<rparr>"






section \<open>Properties of the domain decomposition\<close>

text \<open>
  Inside the loops the divisors are never zero, so the body never raises: it either keeps
  the state or records the feasible pair \<open>(fx, nproc div fx)\<close>.
\<close>

lemma factor_body_eq:
  assumes "1 \<le> fx" "fx \<le> nproc"
  shows "factor_body nx nz mb nproc fx st =
     Inr (if nproc mod fx = 0 \<and> feasible nx nz mb fx (nproc div fx) \<and> best_procs st < nproc
          then st\<lparr>best := (fx, nproc div fx), best_procs := nproc\<rparr> else st)"
proof (cases "nproc mod fx = 0")
  case False
  with assms show ?thesis
    by (simp add: factor_body_def bind_result_def py_mod_def)
next
  case True
  with assms have fy: "1 \<le> nproc div fx" and prod: "fx * (nproc div fx) = nproc"
    by (auto simp add: pos_imp_zdiv_pos_iff)
  with assms True show ?thesis
    by (simp add: factor_body_def bind_result_def py_mod_def py_floordiv_def feasible_def)
qed

text \<open>
  A loop rule: an invariant \<open>I\<close> that every iteration keeps and a measure \<open>m\<close> that no
  iteration lowers hold after the loop, and a bound that one iteration establishes from any
  state still holds at the end.
\<close>

lemma for_each_track:
  fixes m :: "'s \<Rightarrow> int"
  assumes step: "\<And>x s. x \<in> set xs \<Longrightarrow> I s \<Longrightarrow> \<exists>s'. body x s = Inr s' \<and> I s' \<and> m s \<le> m s'"
    and init: "I s"
  shows "\<exists>s'. for_each body xs s = Inr s' \<and> I s' \<and> m s \<le> m s' \<and>
           (\<forall>x v. x \<in> set xs \<and> (\<forall>t t'. I t \<and> body x t = Inr t' \<longrightarrow> v \<le> m t') \<longrightarrow> v \<le> m s')"
  using assms
proof (induction xs arbitrary: s)
  case Nil
  then show ?case by simp
next
  case (Cons y ys)
  from Cons.prems obtain s1 where s1: "body y s = Inr s1" "I s1" "m s \<le> m s1"
    by (meson list.set_intros(1))
  have "\<exists>s'. for_each body ys s1 = Inr s' \<and> I s' \<and> m s1 \<le> m s' \<and>
           (\<forall>x v. x \<in> set ys \<and> (\<forall>t t'. I t \<and> body x t = Inr t' \<longrightarrow> v \<le> m t') \<longrightarrow> v \<le> m s')"
    by (rule Cons.IH) (use Cons.prems s1 in auto)
  then obtain s' where s': "for_each body ys s1 = Inr s'" "I s'" "m s1 \<le> m s'"
     "\<And>x v. x \<in> set ys \<Longrightarrow> (\<forall>t t'. I t \<and> body x t = Inr t' \<longrightarrow> v \<le> m t') \<Longrightarrow> v \<le> m s'"
    by blast
  have "v \<le> m s'" if "x \<in> set (y # ys)" "\<forall>t t'. I t \<and> body x t = Inr t' \<longrightarrow> v \<le> m t'" for x v
  proof (cases "x = y")
    case True
    with that Cons.prems(2) s1 have "v \<le> m s1" by blast
    with s'(3) show ?thesis by simp
  next
    case False
    with that s'(4) show ?thesis by simp
  qed
  with s1 s' show ?case by auto
qed

lemma layout_inv_pos: "layout_inv nx nz mb mc st \<Longrightarrow> 1 \<le> best_procs st"
  by (auto simp add: layout_inv_def)

lemma factor_body_step:
  assumes "1 \<le> fx" "fx \<le> nproc" "nproc \<le> mc" "layout_inv nx nz mb mc st"
  shows "\<exists>st'. factor_body nx nz mb nproc fx st = Inr st' \<and> layout_inv nx nz mb mc st' \<and>
           best_procs st \<le> best_procs st'"
proof (cases "nproc mod fx = 0 \<and> feasible nx nz mb fx (nproc div fx) \<and> best_procs st < nproc")
  case False
  with assms show ?thesis
    by (auto simp add: factor_body_eq)
next
  case True
  with assms have "1 \<le> nproc div fx" "fx * (nproc div fx) = nproc"
    by (auto simp add: pos_imp_zdiv_pos_iff)
  moreover from assms(4) have "1 \<le> best_procs st" by (rule layout_inv_pos)
  ultimately show ?thesis
    using assms True by (simp add: factor_body_eq layout_inv_def)
qed

lemma factor_body_hit:
  assumes "1 \<le> fx" "1 \<le> fy" "feasible nx nz mb fx fy"
    and "factor_body nx nz mb (fx * fy) fx t = Inr t'"
  shows "fx * fy \<le> best_procs t'"
proof -
  from assms(1,2) have le: "fx \<le> fx * fy"
    by (simp add: mult_le_cancel_left1)
  from assms(1) have "fx * fy mod fx = 0" "fx * fy div fx = fy" by simp_all
  with assms(3,4) le assms(1) show ?thesis
    by (auto simp add: factor_body_eq split: if_splits)
qed

lemma factor_loop_track:
  assumes "layout_inv nx nz mb mc st" "nproc \<le> mc"
  shows "\<exists>st'. factor_loop nx nz mb nproc st = Inr st' \<and> layout_inv nx nz mb mc st' \<and>
           best_procs st \<le> best_procs st' \<and>
           (\<forall>fx fy. 1 \<le> fx \<and> 1 \<le> fy \<and> fx * fy = nproc \<and> feasible nx nz mb fx fy
              \<longrightarrow> nproc \<le> best_procs st')"
proof -
  have "\<exists>s'. for_each (factor_body nx nz mb nproc) [1..nproc] st = Inr s' \<and>
          layout_inv nx nz mb mc s' \<and> best_procs st \<le> best_procs s' \<and>
          (\<forall>x v. x \<in> set [1..nproc] \<and>
             (\<forall>t t'. layout_inv nx nz mb mc t \<and> factor_body nx nz mb nproc x t = Inr t'
                \<longrightarrow> v \<le> best_procs t') \<longrightarrow> v \<le> best_procs s')"
    by (rule for_each_track) (use assms in \<open>auto intro: factor_body_step\<close>)
  then obtain s' where s': "for_each (factor_body nx nz mb nproc) [1..nproc] st = Inr s'"
      "layout_inv nx nz mb mc s'" "best_procs st \<le> best_procs s'"
      "\<And>x v. x \<in> set [1..nproc] \<Longrightarrow>
         (\<forall>t t'. layout_inv nx nz mb mc t \<and> factor_body nx nz mb nproc x t = Inr t'
                \<longrightarrow> v \<le> best_procs t') \<Longrightarrow> v \<le> best_procs s'"
    by blast
  have "nproc \<le> best_procs s'"
    if "1 \<le> fx" "1 \<le> fy" "fx * fy = nproc" "feasible nx nz mb fx fy" for fx fy
  proof (rule s'(4) [of fx])
    from that(1,2) have "fx \<le> fx * fy" by (simp add: mult_le_cancel_left1)
    with that show "fx \<in> set [1..nproc]" by simp
    from that show "\<forall>t t'. layout_inv nx nz mb mc t \<and> factor_body nx nz mb nproc fx t = Inr t'
                \<longrightarrow> nproc \<le> best_procs t'"
      using factor_body_hit by blast
  qed
  with s'(1,2,3) show ?thesis
    by (auto simp add: factor_loop_def)
qed

lemma nproc_loop_track:
  assumes "layout_inv nx nz mb mc st"
  shows "\<exists>st'. nproc_loop nx nz mb mc st = Inr st' \<and> layout_inv nx nz mb mc st' \<and>
           (\<forall>fx fy. 1 \<le> fx \<and> 1 \<le> fy \<and> fx * fy \<le> mc \<and> feasible nx nz mb fx fy
              \<longrightarrow> fx * fy \<le> best_procs st')"
proof -
  have "\<exists>s'. for_each (factor_loop nx nz mb) [1..mc] st = Inr s' \<and>
          layout_inv nx nz mb mc s' \<and> best_procs st \<le> best_procs s' \<and>
          (\<forall>x v. x \<in> set [1..mc] \<and>
             (\<forall>t t'. layout_inv nx nz mb mc t \<and> factor_loop nx nz mb x t = Inr t'
                \<longrightarrow> v \<le> best_procs t') \<longrightarrow> v \<le> best_procs s')"
  proof (rule for_each_track)
    fix x s assume "x \<in> set [1..mc]" "layout_inv nx nz mb mc s"
    then show "\<exists>s'. factor_loop nx nz mb x s = Inr s' \<and> layout_inv nx nz mb mc s' \<and>
                 best_procs s \<le> best_procs s'"
      using factor_loop_track [of nx nz mb mc s x] by auto
  qed (rule assms)
  then obtain s' where s': "for_each (factor_loop nx nz mb) [1..mc] st = Inr s'"
      "layout_inv nx nz mb mc s'"
      "\<And>x v. x \<in> set [1..mc] \<Longrightarrow>
         (\<forall>t t'. layout_inv nx nz mb mc t \<and> factor_loop nx nz mb x t = Inr t'
                \<longrightarrow> v \<le> best_procs t') \<Longrightarrow> v \<le> best_procs s'"
    by blast
  have "fx * fy \<le> best_procs s'"
    if "1 \<le> fx" "1 \<le> fy" "fx * fy \<le> mc" "feasible nx nz mb fx fy" for fx fy
  proof (rule s'(3) [of "fx * fy"])
    from that(1,2) have "1 * 1 \<le> fx * fy"
      by (intro mult_mono) simp_all
    then have "1 \<le> fx * fy" by simp
    with that show "fx * fy \<in> set [1..mc]" by simp
    show "\<forall>t t'. layout_inv nx nz mb mc t \<and> factor_loop nx nz mb (fx * fy) t = Inr t'
                \<longrightarrow> fx * fy \<le> best_procs t'"
    proof (intro allI impI)
      fix t t' assume a: "layout_inv nx nz mb mc t \<and> factor_loop nx nz mb (fx * fy) t = Inr t'"
      with factor_loop_track [of nx nz mb mc t "fx * fy"] that
      show "fx * fy \<le> best_procs t'" by auto
    qed
  qed
  with s'(1,2) show ?thesis
    by (auto simp add: nproc_loop_def)
qed

lemma suggest_run:
  "\<exists>st. suggest_domain_decomposition_sofi nx nz mc fw fdorder =
          Inr (fst (best st), snd (best st), max 1 (mc div best_procs st), best_procs st) \<and>
        layout_inv nx nz (2 * fw + 2 * fdorder) mc st \<and>
        (\<forall>fx fy. 1 \<le> fx \<and> 1 \<le> fy \<and> fx * fy \<le> mc \<and> feasible nx nz (2 * fw + 2 * fdorder) fx fy
           \<longrightarrow> fx * fy \<le> best_procs st)"
proof -
  let ?mb = "2 * fw + 2 * fdorder"
  have "layout_inv nx nz ?mb mc \<lparr>best = (1, 1), best_procs = 1\<rparr>"
    by (simp add: layout_inv_def)
  from nproc_loop_track [OF this] obtain st where
    st: "nproc_loop nx nz ?mb mc \<lparr>best = (1, 1), best_procs = 1\<rparr> = Inr st"
      "layout_inv nx nz ?mb mc st"
      "\<forall>fx fy. 1 \<le> fx \<and> 1 \<le> fy \<and> fx * fy \<le> mc \<and> feasible nx nz ?mb fx fy
           \<longrightarrow> fx * fy \<le> best_procs st"
    by blast
  from st(2) have "best_procs st \<noteq> 0"
    using layout_inv_pos by fastforce
  with st(1) have "suggest_domain_decomposition_sofi nx nz mc fw fdorder =
      Inr (fst (best st), snd (best st), max 1 (mc div best_procs st), best_procs st)"
    by (simp add: suggest_domain_decomposition_sofi_def bind_result_def py_floordiv_def)
  with st(2,3) show ?thesis by blast
qed


text \<open>
  Claim C2. For all integer inputs (in particular for positive \<open>nx\<close>, \<open>nz\<close> and
  \<open>max_cores\<close>) the call returns a layout, and if its \<open>total_processes\<close> exceeds 1 then
  \<open>procs_x\<close> divides \<open>nx\<close>, \<open>procs_z\<close> divides \<open>nz\<close>, and both local block sizes are at
  least \<open>min_block = 2 * fw + 2 * fdorder\<close>.
\<close>

theorem decomposition_invariants:
  "\<exists>procs_x procs_z threads total.
     suggest_domain_decomposition_sofi nx nz max_cores fw fdorder =
       Inr (procs_x, procs_z, threads, total) \<and>
     1 \<le> procs_x \<and> 1 \<le> procs_z \<and>
     (1 < total \<longrightarrow>
        nx mod procs_x = 0 \<and> nz mod procs_z = 0 \<and>
        2 * fw + 2 * fdorder \<le> nx div procs_x \<and> 2 * fw + 2 * fdorder \<le> nz div procs_z)"
proof -
  from suggest_run [of nx nz max_cores fw fdorder] obtain st where
    st: "suggest_domain_decomposition_sofi nx nz max_cores fw fdorder =
          Inr (fst (best st), snd (best st), max 1 (max_cores div best_procs st), best_procs st)"
      "layout_inv nx nz (2 * fw + 2 * fdorder) max_cores st"
    by blast
  from st(2) show ?thesis
    unfolding st(1) by (auto simp add: layout_inv_def feasible_def)
qed

theorem decomposition_invariants_witness:
  "suggest_domain_decomposition_sofi 8 8 4 1 1 = Inr (2, 2, 1, 4) \<and> (1::int) < 4 \<and>
   (8::int) mod 2 = 0 \<and> (2 * 1 + 2 * 1 :: int) \<le> 8 div 2"
proof -
  have run: "suggest_domain_decomposition_sofi 8 8 4 1 1 = Inr (2, 2, 1, 4)"
    by code_simp
  from decomposition_invariants [of 8 8 4 1 1] show ?thesis
    unfolding run by simp
qed



text \<open>
  Claim C4 says that \<open>max_cores < 1\<close>, \<open>nx \<le> 0\<close> or \<open>nz \<le> 0\<close> is rejected with an error.
  The function has no validation: each of the three calls below returns a layout.
\<close>

theorem decomposition_unvalidated_counterexample:
  "suggest_domain_decomposition_sofi 512 256 0 40 4 = Inr (1, 1, 1, 1) \<and>
   suggest_domain_decomposition_sofi 0 256 16 40 4 = Inr (1, 1, 16, 1) \<and>
   suggest_domain_decomposition_sofi 512 (- 256) 16 40 4 = Inr (1, 1, 16, 1)"
  by code_simp

text \<open>
  Claim C4, amended. For all integer arguments, including \<open>max_cores < 1\<close>, \<open>nx \<le> 0\<close> and
  \<open>nz \<le> 0\<close>, the call raises nothing and returns a layout; for \<open>max_cores < 1\<close> the
  search loop is empty and the layout is exactly \<open>(1, 1, 1, 1)\<close>.
\<close>

theorem decomposition_never_raises:
  "(\<exists>procs_x procs_z threads total.
      suggest_domain_decomposition_sofi nx nz max_cores fw fdorder =
        Inr (procs_x, procs_z, threads, total)) \<and>
   (max_cores < 1 \<longrightarrow>
      suggest_domain_decomposition_sofi nx nz max_cores fw fdorder = Inr (1, 1, 1, 1))"
proof
  from suggest_run [of nx nz max_cores fw fdorder]
  show "\<exists>procs_x procs_z threads total.
      suggest_domain_decomposition_sofi nx nz max_cores fw fdorder =
        Inr (procs_x, procs_z, threads, total)"
    by blast
  show "max_cores < 1 \<longrightarrow>
      suggest_domain_decomposition_sofi nx nz max_cores fw fdorder = Inr (1, 1, 1, 1)"
    by (simp add: suggest_domain_decomposition_sofi_def nproc_loop_def bind_result_def
        py_floordiv_def)
qed

theorem decomposition_never_raises_witness:
  "(- 3 :: int) < 1 \<and> suggest_domain_decomposition_sofi 8 (- 8) (- 3) 1 1 = Inr (1, 1, 1, 1)"
  using decomposition_never_raises [of 8 "- 8" "- 3" 1 1] by simp

text \<open>
  Claim C5. For \<open>nx = 512\<close>, \<open>nz = 256\<close>, \<open>max_cores = 16\<close>, \<open>fw = 40\<close> and
  \<open>fdorder = 4\<close> the call returns exactly \<open>(4, 2, 2, 8)\<close>.
\<close>

theorem decomposition_concrete_scenario:
  "suggest_domain_decomposition_sofi 512 256 16 40 4 = Inr (4, 2, 2, 8)"
  by code_simp

section \<open>Properties of the padder\<close>

text \<open>Lengths and samples of a padded lane.\<close>

lemma length_edge_pad:
  "length (edge_pad before after xs) = (if xs = [] then 0 else before + length xs + after)"
  by (simp add: edge_pad_def)

lemma set_edge_pad: "set (edge_pad before after xs) \<subseteq> set xs"
  by (auto simp add: edge_pad_def)

lemma nth_edge_pad: "i < length xs \<Longrightarrow> edge_pad before after xs ! (before + i) = xs ! i"
  by (auto simp add: edge_pad_def nth_append)

lemma length_constant_pad: "length (constant_pad before after c xs) = before + length xs + after"
  by (simp add: constant_pad_def)

lemma set_constant_pad: "set (constant_pad before after c xs) \<subseteq> insert c (set xs)"
  by (auto simp add: constant_pad_def)

lemma nth_constant_pad: "i < length xs \<Longrightarrow> constant_pad before after c xs ! (before + i) = xs ! i"
  by (simp add: constant_pad_def nth_append)

text \<open>
  With non-negative widths, and zero widths on an axis of length 0, \<^verbatim>\<open>np.pad\<close> returns
  an array of the enlarged shape that holds the original samples, shifted by the leading
  widths.
\<close>

lemma np_pad_edge:
  assumes ws: "well_shaped a"
    and nonneg: "0 \<le> x0" "0 \<le> x1" "0 \<le> z0" "0 \<le> z1"
    and ex: "fst (shape a) = 0 \<Longrightarrow> x0 = 0 \<and> x1 = 0"
    and ez: "snd (shape a) = 0 \<Longrightarrow> z0 = 0 \<and> z1 = 0"
  shows "\<exists>p. np_pad a ((x0, x1), (z0, z1)) Edge = Inr p \<and> well_shaped p \<and> dtype p = dtype a \<and>
           shape p = (nat x0 + fst (shape a) + nat x1, nat z0 + snd (shape a) + nat z1) \<and>
           (\<forall>i j. i < fst (shape a) \<and> j < snd (shape a)
              \<longrightarrow> item p (nat x0 + i) (nat z0 + j) = item a i j)"
proof -
  obtain nx nz where sh: "shape a = (nx, nz)" by (cases "shape a")
  let ?rows = "map (edge_pad (nat z0) (nat z1)) (edge_pad (nat x0) (nat x1) (rows a))"
  let ?p = "a\<lparr>shape := (nat x0 + nx + nat x1, nat z0 + nz + nat z1), rows := ?rows\<rparr>"
  from ws sh have len: "length (rows a) = nx" and row: "\<And>r. r \<in> set (rows a) \<Longrightarrow> length r = nz"
    by (simp_all add: well_shaped_def)
  from nonneg ex ez sh have run: "np_pad a ((x0, x1), (z0, z1)) Edge = Inr ?p"
    by (auto simp add: np_pad_def)
  have l0: "length ?rows = nat x0 + nx + nat x1"
    using len ex sh by (auto simp add: length_edge_pad)
  have l1: "length r = nat z0 + nz + nat z1" if "r \<in> set ?rows" for r
  proof -
    from that obtain r0 where r0: "r0 \<in> set (rows a)" "r = edge_pad (nat z0) (nat z1) r0"
      using set_edge_pad [of "nat x0" "nat x1" "rows a"] by auto
    with row [of r0] ez sh show ?thesis
      by (auto simp add: length_edge_pad)
  qed
  have it: "item ?p (nat x0 + i) (nat z0 + j) = item a i j" if "i < nx" "j < nz" for i j
  proof -
    from that len have "rows a ! i \<in> set (rows a)" by simp
    with row have lr: "length (rows a ! i) = nz" by simp
    from that len have "edge_pad (nat x0) (nat x1) (rows a) ! (nat x0 + i) = rows a ! i"
      by (simp add: nth_edge_pad)
    moreover from that len have "nat x0 + i < length (edge_pad (nat x0) (nat x1) (rows a))"
      by (auto simp add: length_edge_pad)
    ultimately have "?rows ! (nat x0 + i) = edge_pad (nat z0) (nat z1) (rows a ! i)"
      by simp
    with that lr show ?thesis
      by (simp add: item_def nth_edge_pad)
  qed
  from l0 l1 have "well_shaped ?p"
    by (simp add: well_shaped_def)
  with run it sh show ?thesis
    by simp
qed

lemma np_pad_constant:
  assumes ws: "well_shaped (a :: 'a::zero ndarray)"
    and nonneg: "0 \<le> x0" "0 \<le> x1" "0 \<le> z0" "0 \<le> z1"
  shows "\<exists>p. np_pad a ((x0, x1), (z0, z1)) Constant = Inr p \<and> well_shaped p \<and> dtype p = dtype a \<and>
           shape p = (nat x0 + fst (shape a) + nat x1, nat z0 + snd (shape a) + nat z1) \<and>
           (\<forall>i j. i < fst (shape a) \<and> j < snd (shape a)
              \<longrightarrow> item p (nat x0 + i) (nat z0 + j) = item a i j)"
proof -
  obtain nx nz where sh: "shape a = (nx, nz)" by (cases "shape a")
  let ?rows = "map (constant_pad (nat z0) (nat z1) 0)
                 (constant_pad (nat x0) (nat x1) (replicate nz 0) (rows a))"
  let ?p = "a\<lparr>shape := (nat x0 + nx + nat x1, nat z0 + nz + nat z1), rows := ?rows\<rparr>"
  from ws sh have len: "length (rows a) = nx" and row: "\<And>r. r \<in> set (rows a) \<Longrightarrow> length r = nz"
    by (simp_all add: well_shaped_def)
  from nonneg sh have run: "np_pad a ((x0, x1), (z0, z1)) Constant = Inr ?p"
    by (auto simp add: np_pad_def)
  have l0: "length ?rows = nat x0 + nx + nat x1"
    using len by (simp add: length_constant_pad)
  have l1: "length r = nat z0 + nz + nat z1" if "r \<in> set ?rows" for r
  proof -
    from that obtain r0 where r0: "r0 \<in> insert (replicate nz 0) (set (rows a))"
        "r = constant_pad (nat z0) (nat z1) 0 r0"
      using set_constant_pad [of "nat x0" "nat x1" "replicate nz 0" "rows a"] by auto
    with row [of r0] show ?thesis
      by (auto simp add: length_constant_pad)
  qed
  have it: "item ?p (nat x0 + i) (nat z0 + j) = item a i j" if "i < nx" "j < nz" for i j
  proof -
    from that len have "rows a ! i \<in> set (rows a)" by simp
    with row have lr: "length (rows a ! i) = nz" by simp
    from that len have
      "constant_pad (nat x0) (nat x1) (replicate nz 0) (rows a) ! (nat x0 + i) = rows a ! i"
      by (simp add: nth_constant_pad)
    moreover from that len have
      "nat x0 + i < length (constant_pad (nat x0) (nat x1) (replicate nz 0) (rows a))"
      by (simp add: length_constant_pad)
    ultimately have "?rows ! (nat x0 + i) = constant_pad (nat z0) (nat z1) 0 (rows a ! i)"
      by simp
    with that lr show ?thesis
      by (simp add: item_def nth_constant_pad)
  qed
  from l0 l1 have "well_shaped ?p"
    by (simp add: well_shaped_def)
  with run it sh show ?thesis
    by simp
qed

lemma np_pad_ok:
  assumes "well_shaped (a :: 'a::zero ndarray)"
    and "0 \<le> x0" "0 \<le> x1" "0 \<le> z0" "0 \<le> z1"
    and "fst (shape a) = 0 \<Longrightarrow> x0 = 0 \<and> x1 = 0"
    and "snd (shape a) = 0 \<Longrightarrow> z0 = 0 \<and> z1 = 0"
  shows "\<exists>p. np_pad a ((x0, x1), (z0, z1)) mode = Inr p \<and> well_shaped p \<and> dtype p = dtype a \<and>
           shape p = (nat x0 + fst (shape a) + nat x1, nat z0 + snd (shape a) + nat z1) \<and>
           (\<forall>i j. i < fst (shape a) \<and> j < snd (shape a)
              \<longrightarrow> item p (nat x0 + i) (nat z0 + j) = item a i j)"
proof (cases mode)
  case Edge
  with assms show ?thesis using np_pad_edge [of a x0 x1 z0 z1] by simp
next
  case Constant
  with assms show ?thesis using np_pad_constant [of a x0 x1 z0 z1] by simp
qed

text \<open>The ceiling of the quotient of two integers, by integer division.\<close>

lemma ceil_to_multiple_div:
  "ceil_to_multiple n multiple =
     (if multiple = 0 then Inl ZeroDivisionError else Inr (- (- n div multiple) * multiple))"
  unfolding ceil_to_multiple_def ceiling_divide_eq_div ..

lemma ceil_to_multiple_least:
  assumes "1 \<le> multiple"
  shows "\<exists>p. ceil_to_multiple n multiple = Inr p \<and> smallest_multiple_at_least multiple n p \<and>
           p < n + multiple"
proof -
  let ?q = "- (- n div multiple)"
  let ?p = "?q * multiple"
  from assms have run: "ceil_to_multiple n multiple = Inr ?p"
    by (simp add: ceil_to_multiple_def ceiling_divide_eq_div)
  have eq: "?p = n + (- n) mod multiple"
  proof -
    define d where "d = - n div multiple"
    define r where "r = (- n) mod multiple"
    have "multiple * d + r = - n"
      unfolding d_def r_def by (rule mult_div_mod_eq)
    then have "- d * multiple = n + r"
      by (simp add: mult.commute)
    then show ?thesis
      by (simp add: d_def r_def)
  qed
  from assms have "0 \<le> (- n) mod multiple" "(- n) mod multiple < multiple"
    by simp_all
  with eq have bounds: "n \<le> ?p" "?p < n + multiple" by simp_all
  have least: "?p \<le> k" if "multiple dvd k" "n \<le> k" for k
  proof -
    from that(1) obtain c where c: "k = multiple * c" ..
    from that(2) c assms have "real_of_int n / real_of_int multiple \<le> real_of_int c"
      by (simp add: pos_divide_le_eq mult.commute flip: of_int_mult)
    then have "\<lceil>real_of_int n / real_of_int multiple\<rceil> \<le> c"
      by (simp add: ceiling_le_iff)
    then have "?q \<le> c" by (simp add: ceiling_divide_eq_div)
    with assms have "?q * multiple \<le> c * multiple"
      by (intro mult_right_mono) simp_all
    with c show ?thesis by (simp add: mult.commute)
  qed
  from bounds least have "smallest_multiple_at_least multiple n ?p"
    by (simp add: smallest_multiple_at_least_def)
  with run bounds show ?thesis by blast
qed

text \<open>
  The run of the padder for \<open>multiple \<ge> 1\<close>: no exception, the padded dimensions are the
  smallest multiples, and the samples are kept.
\<close>

lemma pad_model_to_multiple_run:
  assumes ws: "well_shaped (model :: 'a::zero ndarray)" and m: "1 \<le> multiple"
  shows "\<exists>padded nx_pad nz_pad.
     pad_model_to_multiple model multiple mode =
       Inr (padded, ((nx_pad - int (fst (shape model))) div 2,
                     (nx_pad - int (fst (shape model))) - (nx_pad - int (fst (shape model))) div 2,
                     (nz_pad - int (snd (shape model))) div 2,
                     (nz_pad - int (snd (shape model))) - (nz_pad - int (snd (shape model))) div 2)) \<and>
     smallest_multiple_at_least multiple (int (fst (shape model))) nx_pad \<and>
     smallest_multiple_at_least multiple (int (snd (shape model))) nz_pad \<and>
     well_shaped padded \<and> dtype padded = dtype model \<and>
     shape padded = (nat nx_pad, nat nz_pad) \<and>
     (\<forall>i j. i < fst (shape model) \<and> j < snd (shape model) \<longrightarrow>
        item padded (nat ((nx_pad - int (fst (shape model))) div 2) + i)
                    (nat ((nz_pad - int (snd (shape model))) div 2) + j) = item model i j)"
proof -
  obtain nx nz where sh: "shape model = (nx, nz)" by (cases "shape model")
  from ceil_to_multiple_least [OF m, of "int nx"] obtain px where
    px: "ceil_to_multiple (int nx) multiple = Inr px" "smallest_multiple_at_least multiple (int nx) px"
      "px < int nx + multiple"
    by blast
  from ceil_to_multiple_least [OF m, of "int nz"] obtain pz where
    pz: "ceil_to_multiple (int nz) multiple = Inr pz" "smallest_multiple_at_least multiple (int nz) pz"
      "pz < int nz + multiple"
    by blast
  from px(2) pz(2) have ge: "int nx \<le> px" "int nz \<le> pz" and dv: "multiple dvd px" "multiple dvd pz"
    by (simp_all add: smallest_multiple_at_least_def)
  let ?l = "(px - int nx) div 2" and ?t = "(pz - int nz) div 2"
  let ?r = "(px - int nx) - ?l" and ?b = "(pz - int nz) - ?t"
  from ge have nonneg: "0 \<le> ?l" "0 \<le> ?r" "0 \<le> ?t" "0 \<le> ?b" by simp_all
  have zx: "px = 0" if "nx = 0"
  proof -
    from that px(3) ge(1) have "0 \<le> px" "px < multiple" by simp_all
    with dv(1) show ?thesis
      using zdvd_not_zless [of px multiple] by fastforce
  qed
  have zz: "pz = 0" if "nz = 0"
  proof -
    from that pz(3) ge(2) have "0 \<le> pz" "pz < multiple" by simp_all
    with dv(2) show ?thesis
      using zdvd_not_zless [of pz multiple] by fastforce
  qed
  have "\<exists>p. np_pad model ((?l, ?r), (?t, ?b)) mode = Inr p \<and> well_shaped p \<and> dtype p = dtype model \<and>
           shape p = (nat ?l + fst (shape model) + nat ?r, nat ?t + snd (shape model) + nat ?b) \<and>
           (\<forall>i j. i < fst (shape model) \<and> j < snd (shape model)
              \<longrightarrow> item p (nat ?l + i) (nat ?t + j) = item model i j)"
    by (rule np_pad_ok) (use ws nonneg zx zz sh in auto)
  then obtain p where p: "np_pad model ((?l, ?r), (?t, ?b)) mode = Inr p" "well_shaped p"
      "dtype p = dtype model"
      "shape p = (nat ?l + nx + nat ?r, nat ?t + nz + nat ?b)"
      "\<forall>i j. i < nx \<and> j < nz \<longrightarrow> item p (nat ?l + i) (nat ?t + j) = item model i j"
    using sh by auto
  from ge have "nat ?l + nx + nat ?r = nat px" "nat ?t + nz + nat ?b = nat pz"
    by linarith+
  with p(4) have shp: "shape p = (nat px, nat pz)" by simp
  from px(1) pz(1) p(1) sh have
    "pad_model_to_multiple model multiple mode = Inr (p, (?l, ?r, ?t, ?b))"
    by (simp add: pad_model_to_multiple_def bind_result_def Let_def)
  with px(2) pz(2) p(2,3,5) shp sh show ?thesis
    by auto
qed





text \<open>
  Claim C1 says that a call of \<^verbatim>\<open>pad_model_to_multiple\<close> with one model returns a single
  array and a call with several models returns a tuple of arrays. The name is bound to the
  second definition: with one model the call returns a pair of the array and the four
  offsets, and with two models it raises \<^verbatim>\<open>TypeError\<close>.
\<close>

theorem pad_call_shadowed:
  "call_pad_model_to_multiple [model_2x3] 4 Edge =
     Inr (PyTuple [PyArray \<lparr>dtype = Float32, shape = (4, 4),
            rows = [[1, 2, 3, 3], [1, 2, 3, 3], [4, 5, 6, 6], [4, 5, 6, 6]]\<rparr>,
          PyTuple [PyInt 1, PyInt 1, PyInt 0, PyInt 1]]) \<and>
   call_pad_model_to_multiple [model_2x3, model_2x3] 4 Edge = Inl TypeError"
  by (simp add: call_pad_model_to_multiple_def pad_model_to_multiple_def ceil_to_multiple_div
      bind_result_def np_pad_def edge_pad_def model_2x3_def)

text \<open>
  The first definition, which the docstring of the claim describes, does what the claim
  says: for models of one shape it returns the padded array itself when there is one model,
  and otherwise the tuple of the padded arrays in the order of the arguments. Both
  definitions pad by the same widths, computed from the shape and \<open>multiple\<close>.
\<close>

lemma pad_model_to_multiple_widths:
  assumes "multiple \<noteq> 0"
  shows "pad_model_to_multiple model multiple mode =
     bind_result (np_pad model (pad_widths multiple (shape model)) mode)
       (\<lambda>padded. Inr (padded, fst (fst (pad_widths multiple (shape model))),
                              snd (fst (pad_widths multiple (shape model))),
                              fst (snd (pad_widths multiple (shape model))),
                              snd (snd (pad_widths multiple (shape model)))))"
  using assms
  by (cases "shape model")
    (simp add: pad_model_to_multiple_def ceil_to_multiple_div bind_result_def pad_widths_def Let_def)

lemma pad_model_to_multiple_variadic_widths:
  assumes "multiple \<noteq> 0"
  shows "pad_model_to_multiple_variadic (m0 # ms) multiple mode =
     bind_result (pad_each (m0 # ms) (pad_widths multiple (shape m0)) mode)
       (\<lambda>padded. if length padded = 1 then Inr (PyArray (hd padded))
                  else Inr (PyTuple (map PyArray padded)))"
  using assms
  by (cases "shape m0")
    (simp add: pad_model_to_multiple_variadic_def ceil_to_multiple_div bind_result_def
      pad_widths_def Let_def)

lemma pad_each_ok:
  assumes "\<forall>m \<in> set ms. \<exists>p. np_pad m w mode = Inr p"
  shows "\<exists>ps. pad_each ms w mode = Inr ps \<and> length ps = length ms \<and>
           (\<forall>k < length ms. np_pad (ms ! k) w mode = Inr (ps ! k))"
  using assms
proof (induction ms)
  case Nil
  then show ?case by simp
next
  case (Cons m ms)
  then obtain p ps where p: "np_pad m w mode = Inr p"
    and ps: "pad_each ms w mode = Inr ps" "length ps = length ms"
      "\<forall>k < length ms. np_pad (ms ! k) w mode = Inr (ps ! k)"
    by auto
  have "\<forall>k < length (m # ms). np_pad ((m # ms) ! k) w mode = Inr ((p # ps) ! k)"
    using p ps(3) by (auto simp add: nth_Cons split: nat.splits)
  with p ps(1,2) show ?case
    by (simp add: bind_result_def)
qed

lemma variadic_returns_array_or_tuple:
  assumes ne: "models \<noteq> []"
    and same: "\<forall>m \<in> set models. well_shaped m \<and> shape m = shape (hd models)"
    and m: "1 \<le> multiple"
  shows "\<exists>ps. length ps = length models \<and>
     (\<forall>k < length models. \<exists>info.
         pad_model_to_multiple (models ! k) multiple mode = Inr (ps ! k, info)) \<and>
     pad_model_to_multiple_variadic models multiple mode =
       Inr (if length models = 1 then PyArray (hd ps) else PyTuple (map PyArray ps))"
proof -
  from ne obtain m0 ms where models: "models = m0 # ms" by (cases models) auto
  let ?w = "pad_widths multiple (shape m0)"
  from m have nz: "multiple \<noteq> 0" by simp
  have each: "\<exists>p. np_pad x ?w mode = Inr p" if "x \<in> set models" for x
  proof -
    from that same models have ws: "well_shaped x" and sh: "shape x = shape m0" by auto
    from pad_model_to_multiple_run [OF ws m, of mode] obtain r where
      "pad_model_to_multiple x multiple mode = Inr r" by blast
    then show ?thesis
      unfolding pad_model_to_multiple_widths [OF nz] sh
      by (cases "np_pad x ?w mode") (simp_all add: bind_result_def)
  qed
  then have "\<forall>x \<in> set models. \<exists>p. np_pad x ?w mode = Inr p" by blast
  from pad_each_ok [OF this] obtain ps where
    ps: "pad_each models ?w mode = Inr ps" "length ps = length models"
      "\<forall>k < length models. np_pad (models ! k) ?w mode = Inr (ps ! k)"
    by blast
  have "\<exists>info. pad_model_to_multiple (models ! k) multiple mode = Inr (ps ! k, info)"
    if "k < length models" for k
  proof -
    from that same have "shape (models ! k) = shape m0"
      using models by (metis list.sel(1) nth_mem)
    with ps(3) that show ?thesis
      by (simp add: pad_model_to_multiple_widths [OF nz] bind_result_def)
  qed
  moreover from ps(1,2) have "pad_model_to_multiple_variadic models multiple mode =
       Inr (if length models = 1 then PyArray (hd ps) else PyTuple (map PyArray ps))"
    unfolding models pad_model_to_multiple_variadic_widths [OF nz]
    by (simp add: bind_result_def)
  ultimately show ?thesis
    using ps(2) by blast
qed

section \<open>Properties of the resampler\<close>











text \<open>
  The three treatments of a point outside of the grid: an exception, the fill value, or,
  with the arguments the resampler passes, the value of the interpolant there.
\<close>

lemma interpolate_raises:
  assumes "bounds_error interp" and "p \<in> set pts" and "out_of_bounds interp p"
  shows "interpolate eval_linear interp pts = Inl ValueError"
  using assms by (auto simp add: interpolate_def)

lemma interpolate_fills:
  assumes "\<not> bounds_error interp" and "fill_value interp = Some v"
    and "k < length pts" and "out_of_bounds interp (pts ! k)"
  shows "\<exists>dt vals. interpolate eval_linear interp pts = Inr (dt, vals) \<and> vals ! k = v"
  using assms by (simp add: interpolate_def)



text \<open>
  Claim C7. For every model and every spacing \<open>h\<close>, \<^verbatim>\<open>resample_model(model, h, h, h)\<close>
  returns the model itself, unchanged: the fast path, with no interpolation.
\<close>

theorem resample_identity: "resample_model eval_linear model h h h = Inr model"
  by (simp add: resample_model_def)








end
